theory Spec2Isabelle
  imports Main
begin

section \<open>The FlagEval judge connector (connectors/flageval-connector.py)\<close>

text \<open>
  The connector posts a prompt, a prediction and a ground truth to a judge model and
  reads the judgment out of the streamed response body. This theory embeds
  \<^verbatim>\<open>FlagJudgeConnector\<close>: its request construction (\<^verbatim>\<open>get_response\<close>,
  \<^verbatim>\<open>_prepare_headers\<close>), its response loop (\<^verbatim>\<open>_process_response\<close>) and its
  entry point (\<^verbatim>\<open>get_prediction\<close>), together with the Python built-ins the loop
  calls (\<^verbatim>\<open>bytes.decode\<close>, \<^verbatim>\<open>str.split\<close>, tuple unpacking, \<^verbatim>\<open>json.loads\<close>,
  subscription, \<^verbatim>\<open>str.strip\<close>).

  The decorators \<^verbatim>\<open>Connector.rate_limited\<close> and \<^verbatim>\<open>perform_retry\<close> belong to the host
  framework and are not part of the file; the functions below are the decorated bodies,
  one attempt each.
\<close>

subsection \<open>Python values\<close>

text \<open>
  A Python \<^verbatim>\<open>bytes\<close> object is a list of 8-bit characters; a Python \<^verbatim>\<open>str\<close> is a list of
  Unicode code points. An ASCII literal denotes the same numbers in both.
\<close>

type_synonym bytes = "char list"
type_synonym pystr = "nat list"

abbreviation ascii :: "string \<Rightarrow> pystr" where
  "ascii cs \<equiv> map of_char cs"

definition NUL :: char where
  "NUL = CHR 0x00"

text \<open>
  The exceptions the connector can meet. All of them are subclasses of Python's
  \<^verbatim>\<open>Exception\<close>, so the handler \<^verbatim>\<open>except Exception\<close> catches each. \<open>ClientError\<close>
  stands for what the HTTP client raises (connection failure, payload error, timeout),
  tagged with the name of its class.
\<close>

datatype exn =
    UnicodeDecodeError
  | ValueError
  | JSONDecodeError
  | KeyError
  | TypeError
  | AttributeError
  | ClientError string

subsection \<open>\<^verbatim>\<open>bytes.decode()\<close>: strict UTF-8\<close>

definition is_cont :: "nat \<Rightarrow> bool" where
  "is_cont b = (128 \<le> b \<and> b < 192)"

text \<open>
  The decoder rejects a stray continuation byte, an overlong form (lead bytes 0xC0, 0xC1
  and code points below the range of their length), a surrogate, a code point above
  0x10FFFF and a sequence cut short by the end of the input.
\<close>

fun utf8 :: "nat list \<Rightarrow> pystr option" where
  "utf8 [] = Some []"
| "utf8 (b # bs) =
     (if b < 128 then map_option ((#) b) (utf8 bs)
      else if 194 \<le> b \<and> b < 224 then
        (case bs of
           c1 # r \<Rightarrow>
             if is_cont c1
             then map_option ((#) ((b - 192) * 64 + (c1 - 128))) (utf8 r)
             else None
         | _ \<Rightarrow> None)
      else if 224 \<le> b \<and> b < 240 then
        (case bs of
           c1 # c2 # r \<Rightarrow>
             (let cp = (b - 224) * 4096 + (c1 - 128) * 64 + (c2 - 128)
              in if is_cont c1 \<and> is_cont c2 \<and> 2048 \<le> cp \<and> \<not> (55296 \<le> cp \<and> cp < 57344)
                 then map_option ((#) cp) (utf8 r)
                 else None)
         | _ \<Rightarrow> None)
      else if 240 \<le> b \<and> b < 245 then
        (case bs of
           c1 # c2 # c3 # r \<Rightarrow>
             (let cp = (b - 240) * 262144 + (c1 - 128) * 4096 + (c2 - 128) * 64 + (c3 - 128)
              in if is_cont c1 \<and> is_cont c2 \<and> is_cont c3 \<and> 65536 \<le> cp \<and> cp < 1114112
                 then map_option ((#) cp) (utf8 r)
                 else None)
         | _ \<Rightarrow> None)
      else None)"

definition decode :: "bytes \<Rightarrow> exn + pystr" where
  "decode chunk =
     (case utf8 (map of_char chunk) of
        None \<Rightarrow> Inl UnicodeDecodeError
      | Some s \<Rightarrow> Inr s)"

subsection \<open>\<^verbatim>\<open>str.split(sep, 1)\<close> and unpacking into two names\<close>

text \<open>
  \<^verbatim>\<open>buffer.split("\0", 1)\<close> returns the one-element list \<^verbatim>\<open>[buffer]\<close> when the
  separator does not occur, and otherwise the part before the first occurrence and the
  part after it.
\<close>

definition split1 :: "nat \<Rightarrow> pystr \<Rightarrow> pystr list" where
  "split1 sep s =
     (if sep \<in> set s
      then [takeWhile (\<lambda>c. c \<noteq> sep) s, tl (dropWhile (\<lambda>c. c \<noteq> sep) s)]
      else [s])"

text \<open>
  \<^verbatim>\<open>data, buffer = xs\<close> raises \<^verbatim>\<open>ValueError\<close> unless \<^verbatim>\<open>xs\<close> has exactly two
  elements.
\<close>

fun unpack2 :: "'a list \<Rightarrow> exn + 'a \<times> 'a" where
  "unpack2 [a, b] = Inr (a, b)"
| "unpack2 _ = Inl ValueError"

subsection \<open>\<^verbatim>\<open>str.strip()\<close>\<close>

text \<open>The code points for which \<^verbatim>\<open>str.isspace\<close> holds.\<close>

definition isspace :: "nat \<Rightarrow> bool" where
  "isspace c =
     ((9 \<le> c \<and> c \<le> 13) \<or> (28 \<le> c \<and> c \<le> 32) \<or> c = 133 \<or> c = 160 \<or> c = 5760
      \<or> (8192 \<le> c \<and> c \<le> 8202) \<or> c = 8232 \<or> c = 8233 \<or> c = 8239 \<or> c = 8287
      \<or> c = 12288)"

definition strip :: "pystr \<Rightarrow> pystr" where
  "strip s = rev (dropWhile isspace (rev (dropWhile isspace s)))"

subsection \<open>\<^verbatim>\<open>json.loads\<close>\<close>

text \<open>
  The JSON decoder of the Python standard library, as far as the connector observes it:
  which texts it accepts and the value it builds. A number is kept as its lexeme (the
  connector never computes with one); \<^verbatim>\<open>NaN\<close>, \<^verbatim>\<open>Infinity\<close> and \<^verbatim>\<open>-Infinity\<close> are
  accepted as the library accepts them. An object keeps its pairs in source order; the
  dictionary built from them lets a later pair override an earlier one with the same
  key, which \<open>getitem\<close> below implements. Interpreter resource limits (recursion
  depth, the digit limit of integer conversion) are outside the model: the properties
  below evaluate the decoder on fragments of a few bytes or are stated relative to its
  outcome, and none asserts that it returns on a text such a limit could refuse.
\<close>

datatype jvalue =
    JNull
  | JBool bool
  | JNumber pystr
  | JString pystr
  | JArray "jvalue list"
  | JObject "(pystr \<times> jvalue) list"

text \<open>Whitespace between tokens: space, tab, line feed and carriage return.\<close>

definition is_ws :: "nat \<Rightarrow> bool" where
  "is_ws c = (c = 32 \<or> c = 9 \<or> c = 10 \<or> c = 13)"

definition skip_ws :: "pystr \<Rightarrow> pystr" where
  "skip_ws s = dropWhile is_ws s"

text \<open>
  A string literal, scanned from the character after its opening quote to its closing
  quote: the decoded string and the text left. A control character, an unknown escape,
  a u-escape without its four hexadecimal digits and a missing closing quote are
  errors. An escaped high surrogate followed by an escaped low surrogate is one code
  point.
\<close>

definition hexval :: "nat \<Rightarrow> nat option" where
  "hexval c =
     (if 48 \<le> c \<and> c \<le> 57 then Some (c - 48)
      else if 65 \<le> c \<and> c \<le> 70 then Some (c - 55)
      else if 97 \<le> c \<and> c \<le> 102 then Some (c - 87)
      else None)"

fun hex4 :: "pystr \<Rightarrow> nat option" where
  "hex4 [a, b, c, d] =
     (case (hexval a, hexval b, hexval c, hexval d) of
        (Some x, Some y, Some z, Some w) \<Rightarrow> Some (((x * 16 + y) * 16 + z) * 16 + w)
      | _ \<Rightarrow> None)"
| "hex4 _ = None"

definition backslash :: "nat \<Rightarrow> nat option" where
  "backslash e =
     (if e = 34 then Some 34
      else if e = 92 then Some 92
      else if e = 47 then Some 47
      else if e = 98 then Some 8
      else if e = 102 then Some 12
      else if e = 110 then Some 10
      else if e = 114 then Some 13
      else if e = 116 then Some 9
      else None)"

definition emit :: "nat \<Rightarrow> (pystr \<times> pystr) option \<Rightarrow> (pystr \<times> pystr) option" where
  "emit c res = map_option (\<lambda>(str, rest). (c # str, rest)) res"

fun scanstring :: "pystr \<Rightarrow> (pystr \<times> pystr) option" where
  "scanstring [] = None"
| "scanstring (c # s) =
     (if c = 34 then Some ([], s)
      else if c = 92 then
        (case s of
           [] \<Rightarrow> None
         | e # s' \<Rightarrow>
             if e = 117 then
               (case hex4 (take 4 s') of
                  None \<Rightarrow> None
                | Some uni \<Rightarrow>
                    if 55296 \<le> uni \<and> uni \<le> 56319 \<and> take 2 (drop 4 s') = [92, 117] then
                      (case hex4 (take 4 (drop 6 s')) of
                         None \<Rightarrow> None
                       | Some uni2 \<Rightarrow>
                           if 56320 \<le> uni2 \<and> uni2 \<le> 57343
                           then emit (65536 + (uni - 55296) * 1024 + (uni2 - 56320))
                                  (scanstring (drop 10 s'))
                           else emit uni (scanstring (drop 4 s')))
                    else emit uni (scanstring (drop 4 s')))
             else
               (case backslash e of
                  None \<Rightarrow> None
                | Some ch \<Rightarrow> emit ch (scanstring s')))
      else if c < 32 then None
      else emit c (scanstring s))"

lemma scanstring_shorter: "scanstring s = Some (str, r) \<Longrightarrow> length r < length s"
  by (induction s arbitrary: str r rule: scanstring.induct)
     (fastforce simp: emit_def split: if_splits option.splits list.splits)+

text \<open>
  A number: an optional minus sign, then 0 or a digit from 1 to 9 followed by digits, then
  optionally a point with digits, then optionally an exponent.
\<close>

definition isdigit :: "nat \<Rightarrow> bool" where
  "isdigit c = (48 \<le> c \<and> c \<le> 57)"

definition match_int :: "pystr \<Rightarrow> (pystr \<times> pystr) option" where
  "match_int s =
     (let sign = takeWhile (\<lambda>c. c = 45) (take 1 s); s1 = drop (length sign) s
      in case s1 of
           [] \<Rightarrow> None
         | d # r \<Rightarrow>
             if d = 48 then Some (sign @ [d], r)
             else if isdigit d then Some (sign @ d # takeWhile isdigit r, dropWhile isdigit r)
             else None)"

definition match_frac :: "pystr \<Rightarrow> pystr \<times> pystr" where
  "match_frac s =
     (case s of
        p # d # r \<Rightarrow>
          if p = 46 \<and> isdigit d then (p # d # takeWhile isdigit r, dropWhile isdigit r)
          else ([], s)
      | _ \<Rightarrow> ([], s))"

definition match_exp :: "pystr \<Rightarrow> pystr \<times> pystr" where
  "match_exp s =
     (case s of
        [] \<Rightarrow> ([], s)
      | e # r \<Rightarrow>
          if e = 69 \<or> e = 101 then
            (let sign = takeWhile (\<lambda>c. c = 43 \<or> c = 45) (take 1 r); r1 = drop (length sign) r
             in if r1 \<noteq> [] \<and> isdigit (hd r1)
                then (e # sign @ takeWhile isdigit r1, dropWhile isdigit r1)
                else ([], s))
          else ([], s))"

definition match_number :: "pystr \<Rightarrow> (pystr \<times> pystr) option" where
  "match_number s =
     (case match_int s of
        None \<Rightarrow> None
      | Some (i, r) \<Rightarrow>
          (let (f, r1) = match_frac r; (e, r2) = match_exp r1
           in Some (i @ f @ e, r2)))"

text \<open>
  A value at the head of the text, with the text left after it. \<open>JSONArray\<close> is called
  on the first element of a nonempty array and \<open>JSONObject\<close> after the opening quote
  of the first key, each with the elements or pairs read so far.
\<close>

function scan_once :: "pystr \<Rightarrow> (jvalue \<times> pystr) option"
  and JSONArray :: "jvalue list \<Rightarrow> pystr \<Rightarrow> (jvalue \<times> pystr) option"
  and JSONObject :: "(pystr \<times> jvalue) list \<Rightarrow> pystr \<Rightarrow> (jvalue \<times> pystr) option"
where
  "scan_once s =
     (case s of
        [] \<Rightarrow> None
      | c # r \<Rightarrow>
          if c = 34 then
            (case scanstring r of None \<Rightarrow> None | Some (str, r') \<Rightarrow> Some (JString str, r'))
          else if c = 123 then
            (case skip_ws r of
               [] \<Rightarrow> None
             | c' # r' \<Rightarrow>
                 if c' = 125 then Some (JObject [], r')
                 else if c' = 34 then JSONObject [] r'
                 else None)
          else if c = 91 then
            (case skip_ws r of
               [] \<Rightarrow> None
             | c' # r' \<Rightarrow>
                 if c' = 93 then Some (JArray [], r')
                 else JSONArray [] (c' # r'))
          else if take 4 s = ascii ''null'' then Some (JNull, drop 4 s)
          else if take 4 s = ascii ''true'' then Some (JBool True, drop 4 s)
          else if take 5 s = ascii ''false'' then Some (JBool False, drop 5 s)
          else
            (case match_number s of
               Some (lexeme, r') \<Rightarrow> Some (JNumber lexeme, r')
             | None \<Rightarrow>
                 if take 3 s = ascii ''NaN'' then Some (JNumber (take 3 s), drop 3 s)
                 else if take 8 s = ascii ''Infinity'' then Some (JNumber (take 8 s), drop 8 s)
                 else if take 9 s = ascii ''-Infinity'' then Some (JNumber (take 9 s), drop 9 s)
                 else None))"
| "JSONArray values s =
     (case scan_once s of
        None \<Rightarrow> None
      | Some (v, r) \<Rightarrow>
          (case skip_ws r of
             [] \<Rightarrow> None
           | c # r' \<Rightarrow>
               if c = 93 then Some (JArray (values @ [v]), r')
               else if c = 44 then JSONArray (values @ [v]) (skip_ws r')
               else None))"
| "JSONObject pairs s =
     (case scanstring s of
        None \<Rightarrow> None
      | Some (key, r) \<Rightarrow>
          (case skip_ws r of
             [] \<Rightarrow> None
           | c # r1 \<Rightarrow>
               if c = 58 then
                 (case scan_once (skip_ws r1) of
                    None \<Rightarrow> None
                  | Some (v, r2) \<Rightarrow>
                      (case skip_ws r2 of
                         [] \<Rightarrow> None
                       | c' # r3 \<Rightarrow>
                           if c' = 125 then Some (JObject (pairs @ [(key, v)]), r3)
                           else if c' = 44 then
                             (case skip_ws r3 of
                                [] \<Rightarrow> None
                              | q # r4 \<Rightarrow>
                                  if q = 34 then JSONObject (pairs @ [(key, v)]) r4
                                  else None)
                           else None))
               else None))"
  by pat_completeness auto

text \<open>Termination: each scanner leaves a text shorter than the one it was given.\<close>

lemma skip_ws_le: "length (skip_ws s) \<le> length s"
  by (simp add: skip_ws_def length_dropWhile_le)

lemma skip_ws_Cons_less: "skip_ws s = c # r \<Longrightarrow> length r < length s"
  using skip_ws_le [of s] by simp

lemma match_int_shorter: "match_int s = Some (l, r) \<Longrightarrow> length r < length s"
  unfolding match_int_def Let_def
  using length_dropWhile_le [of isdigit "tl (drop (length (takeWhile (\<lambda>c. c = 45) (take 1 s))) s)"]
  by (auto split: list.splits if_splits simp: drop_Cons' dest!: arg_cong [where f = length])

lemma match_frac_le: "match_frac s = (l, r) \<Longrightarrow> length r \<le> length s"
  unfolding match_frac_def
  by (auto split: list.splits if_splits intro: le_trans [OF length_dropWhile_le])

lemma match_exp_le: "match_exp s = (l, r) \<Longrightarrow> length r \<le> length s"
  unfolding match_exp_def Let_def
  by (auto split: list.splits if_splits intro!: le_trans [OF length_dropWhile_le])

lemma match_number_shorter: "match_number s = Some (l, r) \<Longrightarrow> length r < length s"
  unfolding match_number_def Let_def
  by (auto split: option.splits prod.splits
           dest!: match_int_shorter match_frac_le match_exp_le)

lemma scan_shorter:
  "scan_once_JSONArray_JSONObject_dom (Inl s) \<Longrightarrow> scan_once s = Some (v, r) \<Longrightarrow> length r < length s"
  "scan_once_JSONArray_JSONObject_dom (Inr (Inl (vs, s))) \<Longrightarrow> JSONArray vs s = Some (v, r) \<Longrightarrow> length r < length s"
  "scan_once_JSONArray_JSONObject_dom (Inr (Inr (ps, s))) \<Longrightarrow> JSONObject ps s = Some (v, r) \<Longrightarrow> length r < length s"
proof (induction s and vs s and ps s arbitrary: v r and v r and v r rule: scan_once_JSONArray_JSONObject.pinduct)
  case (1 s)
  note eq = "1.prems" [unfolded scan_once.psimps [OF "1.hyps"]]
  show ?case
  proof (cases s)
    case Nil
    with eq show ?thesis by simp
  next
    case (Cons c r0)
    consider (str) "c = 34" | (obj) "c \<noteq> 34" "c = 123" | (arr) "c \<noteq> 34" "c \<noteq> 123" "c = 91"
      | (atom) "c \<noteq> 34" "c \<noteq> 123" "c \<noteq> 91"
      by blast
    then show ?thesis
    proof cases
      case str
      with eq Cons show ?thesis
        by (auto split: option.splits dest!: scanstring_shorter)
    next
      case obj
      show ?thesis
      proof (cases "skip_ws r0")
        case Nil
        with eq Cons obj show ?thesis by simp
      next
        case (Cons c' r')
        note sk = skip_ws_Cons_less [OF Cons]
        show ?thesis
        proof (cases "c' = 125")
          case True
          with eq \<open>s = c # r0\<close> obj Cons sk show ?thesis by simp
        next
          case False
          with eq \<open>s = c # r0\<close> obj Cons have "c' = 34" and "JSONObject [] r' = Some (v, r)"
            by (auto split: if_splits)
          from "1.IH"(1) [OF \<open>s = c # r0\<close> obj Cons False this] sk \<open>s = c # r0\<close>
          show ?thesis by simp
        qed
      qed
    next
      case arr
      show ?thesis
      proof (cases "skip_ws r0")
        case Nil
        with eq Cons arr show ?thesis by simp
      next
        case (Cons c' r')
        note sk = skip_ws_Cons_less [OF Cons]
        show ?thesis
        proof (cases "c' = 93")
          case True
          with eq \<open>s = c # r0\<close> arr Cons sk show ?thesis by simp
        next
          case False
          with eq \<open>s = c # r0\<close> arr Cons have "JSONArray [] (c' # r') = Some (v, r)"
            by simp
          from "1.IH"(2) [OF \<open>s = c # r0\<close> arr Cons False this] sk \<open>s = c # r0\<close>
          show ?thesis by simp
        qed
      qed
    next
      case atom
      with eq Cons show ?thesis
        by (auto split: if_splits option.splits dest!: match_number_shorter)
    qed
  qed
next
  case (2 "values" s)
  note eq = "2.prems" [unfolded JSONArray.psimps [OF "2.hyps"]]
  from eq obtain v1 r1 where so: "scan_once s = Some (v1, r1)"
    by (auto split: option.splits)
  note l1 = "2.IH"(1) [OF so]
  show ?case
  proof (cases "skip_ws r1")
    case Nil
    with eq so show ?thesis by simp
  next
    case (Cons c r')
    note sk = skip_ws_Cons_less [OF Cons]
    show ?thesis
    proof (cases "c = 93")
      case True
      with eq so Cons sk l1 show ?thesis by simp
    next
      case False
      with eq so Cons have c: "c = 44" and rec: "JSONArray (values @ [v1]) (skip_ws r') = Some (v, r)"
        by (auto split: if_splits)
      from "2.IH"(2) [OF so refl Cons False c rec] skip_ws_le [of r'] sk l1
      show ?thesis by simp
    qed
  qed
next
  case (3 pairs s)
  note eq = "3.prems" [unfolded JSONObject.psimps [OF "3.hyps"]]
  from eq obtain key r0 where ss: "scanstring s = Some (key, r0)"
    by (auto split: option.splits)
  note l0 = scanstring_shorter [OF ss]
  from eq ss obtain c r1 where sk1: "skip_ws r0 = c # r1"
    by (cases "skip_ws r0") auto
  from eq ss sk1 have c: "c = 58" by (auto split: if_splits)
  from eq ss sk1 c obtain v1 r2 where so: "scan_once (skip_ws r1) = Some (v1, r2)"
    by (auto split: option.splits)
  note l2 = "3.IH"(1) [OF ss refl sk1 c so]
  from eq ss sk1 c so obtain c' r3 where sk3: "skip_ws r2 = c' # r3"
    by (cases "skip_ws r2") auto
  have chain: "length r3 < length s"
    using l0 skip_ws_Cons_less [OF sk1] skip_ws_le [of r1] l2 skip_ws_Cons_less [OF sk3]
    by simp
  show ?case
  proof (cases "c' = 125")
    case True
    with eq ss sk1 c so sk3 chain show ?thesis by simp
  next
    case False
    with eq ss sk1 c so sk3 have c': "c' = 44" by (auto split: if_splits)
    from eq ss sk1 c so sk3 c' obtain q r4 where sk4: "skip_ws r3 = q # r4"
      by (cases "skip_ws r3") auto
    from eq ss sk1 c so sk3 c' sk4 have q: "q = 34"
      and rec: "JSONObject (pairs @ [(key, v1)]) r4 = Some (v, r)"
      by (auto split: if_splits)
    from "3.IH"(2) [OF ss refl sk1 c so refl sk3 False c' sk4 q rec]
      skip_ws_Cons_less [OF sk4] chain
    show ?thesis by simp
  qed
qed

termination scan_once
proof (relation "measure (\<lambda>x. case x of
          Inl s \<Rightarrow> 2 * length s + 1
        | Inr (Inl (vs, s)) \<Rightarrow> 2 * length s + 2
        | Inr (Inr (ps, s)) \<Rightarrow> 2 * length s + 2)", goal_cases)
  case 1
  then show ?case by simp
next
  case (2 s c r c' r')
  then show ?case using skip_ws_Cons_less [of r c' r'] by simp
next
  case (3 s c r c' r')
  then show ?case using skip_ws_Cons_less [of r c' r'] by simp
next
  case (4 vs s)
  then show ?case by simp
next
  case (5 vs s x v r c r')
  then show ?case
    using scan_shorter(1) [of s v r] skip_ws_Cons_less [of r c r'] skip_ws_le [of r'] by simp
next
  case (6 ps s x key r c r1)
  then show ?case
    using scanstring_shorter [of s key r] skip_ws_Cons_less [of r c r1] skip_ws_le [of r1] by simp
next
  case (7 ps s x key r c r1 y v r2 c' r3 q r4)
  then show ?case
    using scanstring_shorter [of s key r] skip_ws_Cons_less [of r c r1] skip_ws_le [of r1]
      scan_shorter(1) [of "skip_ws r1" v r2] skip_ws_Cons_less [of r2 c' r3] skip_ws_Cons_less [of r3 q r4]
    by simp
qed

text \<open>
  \<^verbatim>\<open>json.loads\<close>: whitespace, one value, whitespace, and nothing else.
\<close>

definition json_loads :: "pystr \<Rightarrow> exn + jvalue" where
  "json_loads s =
     (case scan_once (skip_ws s) of
        None \<Rightarrow> Inl JSONDecodeError
      | Some (v, r) \<Rightarrow> if skip_ws r = [] then Inr v else Inl JSONDecodeError)"

subsection \<open>Subscription \<^verbatim>\<open>data["text"]\<close> and the call \<^verbatim>\<open>.strip()\<close>\<close>

text \<open>
  Subscripting a dictionary with an absent key raises \<^verbatim>\<open>KeyError\<close>; subscripting a
  list or a string with a string, or subscripting a number, a boolean or \<^verbatim>\<open>None\<close>,
  raises \<^verbatim>\<open>TypeError\<close>. Of the values \<^verbatim>\<open>json.loads\<close> builds only a string has a
  method \<^verbatim>\<open>strip\<close>; on the others the attribute lookup raises \<^verbatim>\<open>AttributeError\<close>.
\<close>

fun getitem :: "jvalue \<Rightarrow> pystr \<Rightarrow> exn + jvalue" where
  "getitem (JObject pairs) key =
     (case map_of (rev pairs) key of
        None \<Rightarrow> Inl KeyError
      | Some v \<Rightarrow> Inr v)"
| "getitem _ key = Inl TypeError"

fun strip_method :: "jvalue \<Rightarrow> exn + pystr" where
  "strip_method (JString s) = Inr (strip s)"
| "strip_method _ = Inl AttributeError"

subsection \<open>The connector's collaborators\<close>

text \<open>
  The fields of the base connector the class reads, and the prompt arguments handed to
  \<^verbatim>\<open>get_prediction\<close>.
\<close>

record connector =
  endpoint :: pystr
  token :: pystr
  connector_id :: pystr

record connector_prompt_arguments =
  prompt_index :: int
  prompt :: pystr
  predicted_results :: pystr
  target :: pystr

text \<open>
  What \<^verbatim>\<open>session.post\<close> is called with: the URL, the \<^verbatim>\<open>headers\<close> dictionary and the
  \<^verbatim>\<open>json\<close> dictionary, both in insertion order.
\<close>

datatype http_method = GET | POST

record request =
  http_method :: http_method
  url :: pystr
  headers :: "(pystr \<times> pystr) list"
  json :: "(pystr \<times> jvalue) list"

text \<open>
  What the connector can observe of an \<^verbatim>\<open>aiohttp.ClientResponse\<close>: its status, the
  chunks \<^verbatim>\<open>response.content.iter_chunked(1024)\<close> yields in order, the exception the
  stream raises after them (\<open>None\<close> when it ends cleanly), and the outcome of
  \<^verbatim>\<open>await response.text()\<close>.
\<close>

record response =
  status :: nat
  iter_chunked :: "bytes list"
  iter_error :: "exn option"
  text_read :: "exn + pystr"

text \<open>
  The effects of a call: the requests handed to the HTTP client and the lines printed,
  oldest first. A printed line records the values interpolated into its f-string.
\<close>

datatype line =
    Predicting int pystr
  | FailedPrediction exn
  | ExceptionOccurred exn pystr

record world =
  posted :: "request list"
  printed :: "line list"

subsection \<open>\<^verbatim>\<open>_prepare_headers\<close>\<close>

definition prepare_headers :: "connector \<Rightarrow> (pystr \<times> pystr) list" where
  "prepare_headers self =
     [(ascii ''token'', token self),
      (ascii ''Content-Type'', ascii ''application/json'')]"

subsection \<open>\<^verbatim>\<open>_process_response\<close>\<close>

text \<open>
  The two statements that turn a fragment into its judgment text:
  \<^verbatim>\<open>data = json.loads(data)\<close> and \<^verbatim>\<open>text = data["text"].strip()\<close>.
\<close>

definition fragment_text :: "pystr \<Rightarrow> exn + pystr" where
  "fragment_text data =
     (case json_loads data of
        Inl e \<Rightarrow> Inl e
      | Inr data' \<Rightarrow>
          (case getitem data' (ascii ''text'') of
             Inl e \<Rightarrow> Inl e
           | Inr v \<Rightarrow> strip_method v))"

text \<open>
  One pass through the body of the \<^verbatim>\<open>async for\<close> for a nonempty chunk: from the
  buffer and the chunk to the new \<^verbatim>\<open>output\<close> and the new \<^verbatim>\<open>buffer\<close>, or to the
  exception that the decoding, the unpacking of the split or the two statements above
  raise.
\<close>

definition loop_body :: "pystr \<Rightarrow> bytes \<Rightarrow> exn + pystr \<times> pystr" where
  "loop_body buffer chunk =
     (case decode chunk of
        Inl e \<Rightarrow> Inl e
      | Inr s \<Rightarrow>
          (case unpack2 (split1 0 (buffer @ s)) of
             Inl e \<Rightarrow> Inl e
           | Inr (data, buffer') \<Rightarrow>
               (case fragment_text data of
                  Inl e \<Rightarrow> Inl e
                | Inr text \<Rightarrow> Inr (text, buffer'))))"

text \<open>The loop over the chunks, on the pair of \<^verbatim>\<open>output\<close> and \<^verbatim>\<open>buffer\<close>.\<close>

fun async_for :: "pystr \<times> pystr \<Rightarrow> bytes list \<Rightarrow> exn + pystr \<times> pystr" where
  "async_for (output, buffer) [] = Inr (output, buffer)"
| "async_for (output, buffer) (chunk # rest) =
     (if chunk \<noteq> [] then
        (case loop_body buffer chunk of
           Inl e \<Rightarrow> Inl e
         | Inr (output', buffer') \<Rightarrow> async_for (output', buffer') rest)
      else async_for (output, buffer) rest)"

text \<open>
  The \<^verbatim>\<open>try\<close> block: both variables start empty, the loop runs over the chunks, the
  stream ends or raises, and \<^verbatim>\<open>output\<close> is returned.
\<close>

definition try_block :: "response \<Rightarrow> exn + pystr" where
  "try_block response =
     (case async_for ([], []) (iter_chunked response) of
        Inl e \<Rightarrow> Inl e
      | Inr (output, buffer) \<Rightarrow>
          (case iter_error response of
             Some e \<Rightarrow> Inl e
           | None \<Rightarrow> Inr output))"

text \<open>
  The handler evaluates the f-string, which awaits \<^verbatim>\<open>response.text()\<close>, prints it and
  re-raises the exception it caught. An exception raised while the f-string is evaluated
  leaves the handler at once.
\<close>

definition process_response :: "response \<Rightarrow> world \<Rightarrow> (exn + pystr) \<times> world" where
  "process_response response w =
     (case try_block response of
        Inr output \<Rightarrow> (Inr output, w)
      | Inl exception \<Rightarrow>
          (case text_read response of
             Inl e \<Rightarrow> (Inl e, w)
           | Inr t \<Rightarrow>
               (Inl exception, w\<lparr>printed := printed w @ [ExceptionOccurred exception t]\<rparr>)))"

subsection \<open>\<^verbatim>\<open>get_response\<close> and \<^verbatim>\<open>get_prediction\<close>\<close>

text \<open>
  \<open>post\<close> is the HTTP client: given the request, \<^verbatim>\<open>session.post\<close> either raises or
  gives a response. The session is created with no arguments, so the client does not
  raise for a status; it hands every response it receives to the body of the
  \<^verbatim>\<open>async with\<close>.
\<close>

definition get_response ::
  "(request \<Rightarrow> exn + response) \<Rightarrow> connector \<Rightarrow> pystr \<Rightarrow> pystr \<Rightarrow> pystr \<Rightarrow> world
     \<Rightarrow> (exn + pystr) \<times> world" where
  "get_response post self prompt' prediction ground_truth w =
     (let new_params =
            [(ascii ''model'', JString (ascii ''flageval_judgemodel'')),
             (ascii ''prompt'', JString prompt'),
             (ascii ''pred'', JString prediction),
             (ascii ''gold'', JString ground_truth),
             (ascii ''echo'', JBool False),
             (ascii ''stream'', JBool False)];
          req = \<lparr>http_method = POST, url = endpoint self,
                 headers = prepare_headers self, json = new_params\<rparr>;
          w' = w\<lparr>posted := posted w @ [req]\<rparr>
      in case post req of
           Inl e \<Rightarrow> (Inl e, w')
         | Inr response \<Rightarrow> process_response response w')"

definition get_prediction ::
  "(request \<Rightarrow> exn + response) \<Rightarrow> connector \<Rightarrow> connector_prompt_arguments \<Rightarrow> world
     \<Rightarrow> (exn + pystr) \<times> world" where
  "get_prediction post self generated_prompt w =
     (let w1 = w\<lparr>printed := printed w
                   @ [Predicting (prompt_index generated_prompt) (connector_id self)]\<rparr>
      in case get_response post self (prompt generated_prompt)
                (predicted_results generated_prompt) (target generated_prompt) w1 of
           (Inr judge_result, w2) \<Rightarrow> (Inr judge_result, w2)
         | (Inl e, w2) \<Rightarrow> (Inl e, w2\<lparr>printed := printed w2 @ [FailedPrediction e]\<rparr>))"

subsection \<open>HTTP clients and streams used to state the properties\<close>

text \<open>
  A client whose POST gives the response \<open>r\<close> whatever the request, and a client whose
  POST raises \<open>e\<close>.
\<close>

definition respond :: "response \<Rightarrow> request \<Rightarrow> exn + response" where
  "respond r req = Inr r"

definition refuse :: "exn \<Rightarrow> request \<Rightarrow> exn + response" where
  "refuse e req = Inl e"

text \<open>
  A response with the given status whose stream yields the given chunks and ends
  cleanly, and whose text, read afterwards, is empty.
\<close>

definition stream :: "nat \<Rightarrow> bytes list \<Rightarrow> response" where
  "stream st cs = \<lparr>status = st, iter_chunked = cs, iter_error = None, text_read = Inr []\<rparr>"

definition judge :: connector where
  "judge = \<lparr>endpoint = ascii ''https://judge.example/v1'', token = ascii ''secret'',
            connector_id = ascii ''flageval-judge''\<rparr>"

definition question :: connector_prompt_arguments where
  "question = \<lparr>prompt_index = 1, prompt = ascii ''2+2?'', predicted_results = ascii ''4'',
               target = ascii ''4''\<rparr>"

text \<open>
  A response whose body is the three bytes abc, with no NUL, and whose text, read
  afterwards, has the given outcome.
\<close>

definition no_delimiter :: "exn + pystr \<Rightarrow> response" where
  "no_delimiter t =
     \<lparr>status = 200, iter_chunked = [''abc''], iter_error = None, text_read = t\<rparr>"

definition quiet :: world where
  "quiet = \<lparr>posted = [], printed = []\<rparr>"

section \<open>Properties\<close>

subsection \<open>The delimiter\<close>

text \<open>
  In a chunk that decodes, the code point 0 occurs in the text exactly when the byte NUL
  occurs in the chunk: splitting the decoded buffer at the first code point 0 is
  splitting the bytes at the first NUL byte.
\<close>

lemma utf8_NUL: "utf8 bs = Some s \<Longrightarrow> (0 \<in> set s) = (0 \<in> set bs)"
proof (induction bs arbitrary: s rule: utf8.induct)
  case 1
  then show ?case by simp
next
  case (2 b bs)
  consider (one) "b < 128" | (two) "194 \<le> b" "b < 224" | (three) "224 \<le> b" "b < 240"
    | (four) "240 \<le> b" "b < 245" | (bad) "128 \<le> b" "b < 194" | (high) "245 \<le> b"
    by linarith
  then show ?case
  proof cases
    case one
    with "2.prems" obtain s' where "utf8 bs = Some s'" and "s = b # s'"
      by auto
    with "2.IH"(1) [OF one] show ?thesis by auto
  next
    case two
    with "2.prems" obtain c1 r s' where bs: "bs = c1 # r" and c: "is_cont c1"
      and u: "utf8 r = Some s'" and s: "s = ((b - 192) * 64 + (c1 - 128)) # s'"
      by (auto split: list.splits if_splits)
    from two have nb: "\<not> b < 128" by simp
    from "2.IH"(2) [OF nb _ bs c u] two have "(0 \<in> set s') = (0 \<in> set r)" by simp
    moreover from two have "(b - 192) * 64 + (c1 - 128) \<noteq> 0" by simp
    moreover from two c have "b \<noteq> 0" "c1 \<noteq> 0" by (simp_all add: is_cont_def)
    ultimately show ?thesis unfolding bs s by auto
  next
    case three
    with "2.prems" obtain c1 c2 r s' where bs: "bs = c1 # c2 # r"
      and c: "is_cont c1" "is_cont c2"
      and u: "utf8 r = Some s'"
      and s: "s = ((b - 224) * 4096 + (c1 - 128) * 64 + (c2 - 128)) # s'"
      and lo: "2048 \<le> (b - 224) * 4096 + (c1 - 128) * 64 + (c2 - 128)"
      and sur: "\<not> (55296 \<le> (b - 224) * 4096 + (c1 - 128) * 64 + (c2 - 128)
                 \<and> (b - 224) * 4096 + (c1 - 128) * 64 + (c2 - 128) < 57344)"
      by (auto simp: Let_def split: list.splits if_splits)
    from three have nb: "\<not> b < 128" "\<not> (194 \<le> b \<and> b < 224)" by simp_all
    have cond: "is_cont c1 \<and> is_cont c2 \<and> 2048 \<le> (b - 224) * 4096 + (c1 - 128) * 64 + (c2 - 128)
        \<and> \<not> (55296 \<le> (b - 224) * 4096 + (c1 - 128) * 64 + (c2 - 128)
                 \<and> (b - 224) * 4096 + (c1 - 128) * 64 + (c2 - 128) < 57344)"
      using c lo sur by blast
    from "2.IH"(3) [OF nb _ bs refl refl cond u] three
    have "(0 \<in> set s') = (0 \<in> set r)" by simp
    moreover from lo have "(b - 224) * 4096 + (c1 - 128) * 64 + (c2 - 128) \<noteq> 0" by linarith
    moreover from three c have "b \<noteq> 0" "c1 \<noteq> 0" "c2 \<noteq> 0" by (simp_all add: is_cont_def)
    ultimately show ?thesis unfolding bs s by auto
  next
    case four
    with "2.prems" obtain c1 c2 c3 r s' where bs: "bs = c1 # c2 # c3 # r"
      and c: "is_cont c1" "is_cont c2" "is_cont c3"
      and u: "utf8 r = Some s'"
      and s: "s = ((b - 240) * 262144 + (c1 - 128) * 4096 + (c2 - 128) * 64 + (c3 - 128)) # s'"
      and lo: "65536 \<le> (b - 240) * 262144 + (c1 - 128) * 4096 + (c2 - 128) * 64 + (c3 - 128)"
      and hi: "(b - 240) * 262144 + (c1 - 128) * 4096 + (c2 - 128) * 64 + (c3 - 128) < 1114112"
      by (auto simp: Let_def split: list.splits if_splits)
    from four have nb: "\<not> b < 128" "\<not> (194 \<le> b \<and> b < 224)" "\<not> (224 \<le> b \<and> b < 240)"
      by simp_all
    have cond: "is_cont c1 \<and> is_cont c2 \<and> is_cont c3
        \<and> 65536 \<le> (b - 240) * 262144 + (c1 - 128) * 4096 + (c2 - 128) * 64 + (c3 - 128)
        \<and> (b - 240) * 262144 + (c1 - 128) * 4096 + (c2 - 128) * 64 + (c3 - 128) < 1114112"
      using c lo hi by blast
    from "2.IH"(4) [OF nb _ bs refl refl refl cond u] four
    have "(0 \<in> set s') = (0 \<in> set r)" by simp
    moreover from lo
    have "(b - 240) * 262144 + (c1 - 128) * 4096 + (c2 - 128) * 64 + (c3 - 128) \<noteq> 0" by linarith
    moreover from four c have "b \<noteq> 0" "c1 \<noteq> 0" "c2 \<noteq> 0" "c3 \<noteq> 0"
      by (simp_all add: is_cont_def)
    ultimately show ?thesis unfolding bs s by auto
  next
    case bad
    with "2.prems" show ?thesis by simp
  next
    case high
    with "2.prems" show ?thesis by simp
  qed
qed

lemma decode_NUL: "decode chunk = Inr s \<Longrightarrow> (0 \<in> set s) = (NUL \<in> set chunk)"
proof -
  assume "decode chunk = Inr s"
  then have "utf8 (map of_char chunk) = Some s"
    by (simp add: decode_def split: option.splits)
  then have "(0 \<in> set s) = ((0::nat) \<in> set (map of_char chunk))"
    by (rule utf8_NUL)
  also have "\<dots> = (NUL \<in> set chunk)"
  proof -
    have "(of_char c = (0::nat)) = (c = NUL)" for c
    proof
      assume "of_char c = (0::nat)"
      then have "(of_char c :: nat) = of_char (CHR 0x00)" by simp
      then show "c = NUL" unfolding NUL_def by (rule of_char_eqI)
    next
      assume "c = NUL"
      then show "of_char c = (0::nat)" by (simp add: NUL_def)
    qed
    then show ?thesis by (auto simp: image_iff)
  qed
  finally show ?thesis .
qed

subsection \<open>The loop, one chunk at a time\<close>





subsection \<open>What the caller receives\<close>

text \<open>
  The value or exception of \<^verbatim>\<open>_process_response\<close>, of \<^verbatim>\<open>get_response\<close> and of
  \<^verbatim>\<open>get_prediction\<close> is decided by the \<^verbatim>\<open>try\<close> block and, when it raises, by the
  read of the response text.
\<close>

lemma fst_process_response:
  "fst (process_response r w) =
     (case try_block r of
        Inr out \<Rightarrow> Inr out
      | Inl e \<Rightarrow> (case text_read r of Inl e' \<Rightarrow> Inl e' | Inr t \<Rightarrow> Inl e))"
  by (simp add: process_response_def split: sum.splits)

lemma fst_get_prediction:
  "fst (get_prediction post self gp w) =
     fst (get_response post self (prompt gp) (predicted_results gp) (target gp)
            (w\<lparr>printed := printed w @ [Predicting (prompt_index gp) (connector_id self)]\<rparr>))"
  by (auto simp: get_prediction_def Let_def split: prod.splits sum.splits)

lemma evaluate_result:
  "fst (get_prediction (respond r) self gp w) =
     (case try_block r of
        Inr out \<Rightarrow> Inr out
      | Inl e \<Rightarrow> (case text_read r of Inl e' \<Rightarrow> Inl e' | Inr t \<Rightarrow> Inl e))"
  unfolding fst_get_prediction
  by (simp add: get_response_def respond_def Let_def fst_process_response)

lemma evaluate_refused:
  "fst (get_prediction (refuse e) self gp w) = Inl e"
  unfolding fst_get_prediction
  by (simp add: get_response_def refuse_def Let_def)

lemma try_block_status: "try_block (r\<lparr>status := n\<rparr>) = try_block r"
  by (simp add: try_block_def split: sum.splits prod.splits)

lemma process_response_status:
  "process_response (r\<lparr>status := n\<rparr>) w = process_response r w"
  by (simp add: process_response_def try_block_status split: sum.splits)




subsection \<open>\<^verbatim>\<open>str.strip\<close> removes the whitespace at both ends and nothing else\<close>

lemma strip_decomposition:
  "\<exists>a b. s = a @ strip s @ b \<and> list_all isspace a \<and> list_all isspace b"
proof -
  let ?m = "dropWhile isspace s"
  have 1: "s = takeWhile isspace s @ ?m" by simp
  have 2: "?m = strip s @ rev (takeWhile isspace (rev ?m))"
    unfolding strip_def by (metis rev_append rev_rev_ident takeWhile_dropWhile_id)
  have 3: "list_all isspace (takeWhile isspace s)"
    by (simp add: list_all_iff) (meson set_takeWhileD)
  have 4: "list_all isspace (rev (takeWhile isspace (rev ?m)))"
    by (simp add: list_all_iff) (meson set_takeWhileD)
  from 1 2 3 4 show ?thesis by metis
qed

lemma strip_ends:
  assumes "strip s \<noteq> []"
  shows "\<not> isspace (hd (strip s))" and "\<not> isspace (last (strip s))"
proof -
  let ?m = "dropWhile isspace s"
  let ?d = "dropWhile isspace (rev ?m)"
  from assms have d: "?d \<noteq> []" by (simp add: strip_def)
  then have "\<not> isspace (hd ?d)" by (rule hd_dropWhile)
  then show "\<not> isspace (last (strip s))"
    using d by (simp add: strip_def last_rev)
  have m: "?m \<noteq> []"
  proof
    assume e: "?m = []"
    have "?d = []" unfolding e by simp
    with d show False by blast
  qed
  then have hm: "\<not> isspace (hd ?m)" by (rule hd_dropWhile)
  obtain k where "?d = drop k (rev ?m)"
    by (metis dropWhile_eq_drop)
  then have "strip s = take (length ?m - k) ?m"
    by (simp add: strip_def rev_drop)
  with assms have "hd (strip s) = hd ?m"
    by (metis hd_take take_eq_Nil length_greater_0_conv m take_0 neq0_conv)
  with hm show "\<not> isspace (hd (strip s))" by simp
qed

subsection \<open>Two fragments in the stream\<close>

text \<open>
  Both chunkings below carry the same bytes, the fragment with text A and the fragment
  with text B, each closed by NUL. Delivered fragment by fragment, the stream gives B.
\<close>

lemma two_chunks_two_fragments:
  \<open>fst (get_prediction
          (respond \<lparr>status = st,
                    iter_chunked = [''{"text":"A"}'' @ [NUL], ''{"text":"B"}'' @ [NUL]],
                    iter_error = None, text_read = t\<rparr>)
          self gp w)
     = Inr (ascii ''B'')\<close>
proof -
  have \<open>try_block \<lparr>status = st,
                    iter_chunked = [''{"text":"A"}'' @ [NUL], ''{"text":"B"}'' @ [NUL]],
                    iter_error = None, text_read = t\<rparr> = Inr (ascii ''B'')\<close>
    by code_simp
  then show ?thesis by (simp add: evaluate_result)
qed

text \<open>
  C1. The claim: whatever the chunking of the bytes of the two fragments, the call
  returns B, the text of the last complete fragment. On the code, when the two fragments
  arrive in one chunk the loop body runs once, splits at the first NUL only, and the call
  returns A; the second fragment stays in the buffer and is dropped at the end of the
  stream.
\<close>

theorem one_chunk_two_fragments:
  \<open>fst (get_prediction
          (respond \<lparr>status = st,
                    iter_chunked = [''{"text":"A"}'' @ [NUL] @ ''{"text":"B"}'' @ [NUL]],
                    iter_error = None, text_read = t\<rparr>)
          self gp w)
     = Inr (ascii ''A'')\<close>
proof -
  have \<open>try_block \<lparr>status = st,
                    iter_chunked = [''{"text":"A"}'' @ [NUL] @ ''{"text":"B"}'' @ [NUL]],
                    iter_error = None, text_read = t\<rparr> = Inr (ascii ''A'')\<close>
    by code_simp
  then show ?thesis by (simp add: evaluate_result)
qed

subsection \<open>An incomplete tail\<close>

text \<open>When the complete fragment and the tail arrive in one chunk the call returns A.\<close>

lemma tail_in_the_same_chunk:
  \<open>fst (get_prediction
          (respond \<lparr>status = st,
                    iter_chunked = [''{"text":"A"}'' @ [NUL] @ ''{"te''],
                    iter_error = None, text_read = t\<rparr>)
          self gp w)
     = Inr (ascii ''A'')\<close>
proof -
  have \<open>try_block \<lparr>status = st,
                    iter_chunked = [''{"text":"A"}'' @ [NUL] @ ''{"te''],
                    iter_error = None, text_read = t\<rparr> = Inr (ascii ''A'')\<close>
    by code_simp
  then show ?thesis by (simp add: evaluate_result)
qed

text \<open>
  C2. The claim: whatever the chunking of a complete fragment with text A followed by
  a tail without NUL, the call returns A and the tail contributes to no error. On the code,
  when the tail arrives in a chunk of its own, the buffer holds no NUL after that chunk,
  the split has one element, the unpacking raises \<^verbatim>\<open>ValueError\<close> and the call fails.
\<close>

theorem tail_in_its_own_chunk:
  \<open>fst (get_prediction
          (respond \<lparr>status = st,
                    iter_chunked = [''{"text":"A"}'' @ [NUL], ''{"te''],
                    iter_error = None, text_read = Inr t\<rparr>)
          self gp w)
     = Inl ValueError\<close>
proof -
  have \<open>try_block \<lparr>status = st,
                    iter_chunked = [''{"text":"A"}'' @ [NUL], ''{"te''],
                    iter_error = None, text_read = Inr t\<rparr> = Inl ValueError\<close>
    by code_simp
  then show ?thesis by (simp add: evaluate_result)
qed

subsection \<open>The status of the response\<close>

text \<open>
  C3, as amended. The call does not consult the status of the response: whatever the
  status, the body is parsed as judgment fragments and the outcome of the call, its
  value or exception and its effects, is the outcome for the same response under any
  other status. The call fails with the client's exception, and reads no body, when the
  POST itself raises.
\<close>

theorem status_is_not_consulted:
  "get_prediction (respond (r\<lparr>status := n\<rparr>)) self gp w = get_prediction (respond r) self gp w
   \<and> fst (get_prediction (refuse e) self gp w) = Inl e"
proof
  show "get_prediction (respond (r\<lparr>status := n\<rparr>)) self gp w
          = get_prediction (respond r) self gp w"
    by (simp add: get_prediction_def get_response_def respond_def Let_def
          process_response_status)
  show "fst (get_prediction (refuse e) self gp w) = Inl e"
    by (rule evaluate_refused)
qed

text \<open>
  C3 as stated fails: a response with status 500 whose body is one fragment with text A
  makes the call return A.
\<close>

theorem non_2xx_body_is_parsed:
  \<open>\<not> (200 \<le> status (stream 500 [''{"text":"A"}'' @ [NUL]])
        \<and> status (stream 500 [''{"text":"A"}'' @ [NUL]]) < 300)
   \<and> fst (get_prediction (respond (stream 500 [''{"text":"A"}'' @ [NUL]])) judge question quiet)
       = Inr (ascii ''A'')\<close>
proof -
  have \<open>try_block (stream 500 [''{"text":"A"}'' @ [NUL]]) = Inr (ascii ''A'')\<close>
    by code_simp
  then show ?thesis by (simp add: evaluate_result) (simp add: stream_def)
qed

subsection \<open>A malformed fragment\<close>

text \<open>
  When the malformed fragment arrives in a chunk of its own, after the fragment with
  text A, decoding it raises and the call fails: the text A is not returned.
\<close>

lemma malformed_fragment_in_its_own_chunk:
  \<open>fst (get_prediction
          (respond \<lparr>status = st,
                    iter_chunked = [''{"text":"A"}'' @ [NUL], ''junk'' @ [NUL]],
                    iter_error = None, text_read = Inr t\<rparr>)
          self gp w)
     = Inl JSONDecodeError\<close>
proof -
  have \<open>try_block \<lparr>status = st,
                    iter_chunked = [''{"text":"A"}'' @ [NUL], ''junk'' @ [NUL]],
                    iter_error = None, text_read = Inr t\<rparr> = Inl JSONDecodeError\<close>
    by code_simp
  then show ?thesis by (simp add: evaluate_result)
qed

text \<open>
  C4. The claim: when the bytes before some NUL are not valid JSON, or lack the field
  text, the call fails, also after earlier fragments were parsed. On the code, when the
  fragment with text A and the malformed bytes closed by NUL arrive in one chunk, the
  malformed bytes are never decoded and the call returns A.
\<close>

theorem malformed_second_fragment_ignored:
  \<open>fst (get_prediction
          (respond \<lparr>status = st,
                    iter_chunked = [''{"text":"A"}'' @ [NUL] @ ''junk'' @ [NUL]],
                    iter_error = None, text_read = t\<rparr>)
          self gp w)
     = Inr (ascii ''A'')\<close>
proof -
  have \<open>try_block \<lparr>status = st,
                    iter_chunked = [''{"text":"A"}'' @ [NUL] @ ''junk'' @ [NUL]],
                    iter_error = None, text_read = t\<rparr> = Inr (ascii ''A'')\<close>
    by code_simp
  then show ?thesis by (simp add: evaluate_result)
qed

subsection \<open>A stream without a parsed fragment\<close>

text \<open>An empty body gives the empty string.\<close>

lemma empty_body:
  "fst (get_prediction
          (respond \<lparr>status = st, iter_chunked = [], iter_error = None, text_read = t\<rparr>)
          self gp w)
     = Inr []"
  by (simp add: evaluate_result try_block_def)

text \<open>
  The loop returns without having run its body only when every chunk is empty, and then
  the result is the empty string.
\<close>

lemma async_for_empty_chunks:
  "list_all (\<lambda>c. c = []) cs \<Longrightarrow> async_for (output, buffer) cs = Inr (output, buffer)"
  by (induction cs) simp_all

text \<open>
  C5. The claim: a stream that ends with no fragment parsed gives the empty string and
  no error. On the code, a body that is not empty and holds no NUL, such as the three
  bytes abc, makes the unpacking of the split raise \<^verbatim>\<open>ValueError\<close>, and the call
  fails.
\<close>

theorem body_without_NUL_raises:
  \<open>fst (get_prediction
          (respond \<lparr>status = st, iter_chunked = [''abc''],
                    iter_error = None, text_read = Inr t\<rparr>)
          self gp w)
     = Inl ValueError\<close>
proof -
  have \<open>try_block \<lparr>status = st, iter_chunked = [''abc''],
                    iter_error = None, text_read = Inr t\<rparr> = Inl ValueError\<close>
    by code_simp
  then show ?thesis by (simp add: evaluate_result)
qed

subsection \<open>The request\<close>



subsection \<open>The text of a fragment\<close>

text \<open>
  The body that is the one fragment with text hello between two spaces on each side,
  delivered in one chunk, gives hello: the whitespace at both ends is stripped.
\<close>

lemma hello_in_one_chunk:
  \<open>fst (get_prediction
          (respond \<lparr>status = st,
                    iter_chunked = [''{"text":"  hello  "}'' @ [NUL]],
                    iter_error = None, text_read = t\<rparr>)
          self gp w)
     = Inr (ascii ''hello'')\<close>
proof -
  have \<open>try_block \<lparr>status = st,
                    iter_chunked = [''{"text":"  hello  "}'' @ [NUL]],
                    iter_error = None, text_read = t\<rparr> = Inr (ascii ''hello'')\<close>
    by code_simp
  then show ?thesis by (simp add: evaluate_result)
qed

text \<open>
  C7. The claim: the returned judgment is the text of the parsed fragment with the
  whitespace at both ends stripped, and the body that is the one fragment with text
  hello between two spaces on each side yields hello. On the code, when that body
  arrives in two chunks, the first cut inside the fragment, the buffer holds no NUL after
  the first chunk, the unpacking of the split raises \<^verbatim>\<open>ValueError\<close> and the call
  fails before the fragment is complete.
\<close>

theorem hello_in_two_chunks:
  \<open>fst (get_prediction
          (respond \<lparr>status = st,
                    iter_chunked = [''{"text":"  he'', ''llo  "}'' @ [NUL]],
                    iter_error = None, text_read = Inr t\<rparr>)
          self gp w)
     = Inl ValueError\<close>
proof -
  have \<open>try_block \<lparr>status = st,
                    iter_chunked = [''{"text":"  he'', ''llo  "}'' @ [NUL]],
                    iter_error = None, text_read = Inr t\<rparr> = Inl ValueError\<close>
    by code_simp
  then show ?thesis by (simp add: evaluate_result)
qed

subsection \<open>The handler\<close>

text \<open>A body without NUL raises \<^verbatim>\<open>ValueError\<close> in the loop.\<close>

lemma try_block_no_delimiter: "try_block (no_delimiter t) = Inl ValueError"
  unfolding no_delimiter_def by code_simp

text \<open>
  C9, as amended. When reading or decoding the body raises, the handler awaits the text
  of the response. When that read succeeds, a line with the exception and the text is
  printed and the original exception propagates. When that read raises, nothing is
  printed by the handler and the exception of the read propagates in place of the
  original one.
\<close>

theorem handler_outcome:
  assumes "try_block r = Inl e"
  shows "process_response r w =
           (case text_read r of
              Inr t \<Rightarrow> (Inl e, w\<lparr>printed := printed w @ [ExceptionOccurred e t]\<rparr>)
            | Inl e' \<Rightarrow> (Inl e', w))
         \<and> fst (get_prediction (respond r) self gp w') =
           (case text_read r of Inr t \<Rightarrow> Inl e | Inl e' \<Rightarrow> Inl e')"
  using assms
  by (simp add: process_response_def evaluate_result split: sum.splits)

text \<open>
  On the body without NUL: with a text that can be read, the line is printed and
  \<^verbatim>\<open>ValueError\<close> propagates; with a text whose read raises, that exception
  propagates and nothing is printed.
\<close>

theorem handler_outcome_witness:
  "process_response (no_delimiter (Inr [])) quiet
     = (Inl ValueError, \<lparr>posted = [], printed = [ExceptionOccurred ValueError []]\<rparr>)
   \<and> process_response (no_delimiter (Inl (ClientError ''ClientPayloadError''))) quiet
     = (Inl (ClientError ''ClientPayloadError''), quiet)"
  using handler_outcome [OF try_block_no_delimiter [of "Inr []"], where w = quiet]
    handler_outcome [OF try_block_no_delimiter [of "Inl (ClientError ''ClientPayloadError'')"],
      where w = quiet]
  by (simp add: quiet_def no_delimiter_def)

text \<open>
  C9 as stated fails: the loop raises \<^verbatim>\<open>ValueError\<close>, the read of the text raises a
  payload error, and the caller receives the payload error, which is also the exception
  \<^verbatim>\<open>get_prediction\<close> prints.
\<close>

theorem diagnostic_read_failure_propagates:
  "try_block (no_delimiter (Inl (ClientError ''ClientPayloadError''))) = Inl ValueError
   \<and> fst (get_prediction (respond (no_delimiter (Inl (ClientError ''ClientPayloadError''))))
            judge question quiet)
       = Inl (ClientError ''ClientPayloadError'')
   \<and> printed (snd (get_prediction
                      (respond (no_delimiter (Inl (ClientError ''ClientPayloadError''))))
                      judge question quiet))
       = [Predicting 1 (ascii ''flageval-judge''),
          FailedPrediction (ClientError ''ClientPayloadError'')]"
  by (simp add: try_block_no_delimiter)
     (simp add: get_prediction_def get_response_def respond_def Let_def process_response_def
        try_block_no_delimiter judge_def question_def quiet_def, simp add: no_delimiter_def)

subsection \<open>One split per chunk\<close>



end
